theory Spec2Isabelle
  imports Complex_Main "HOL-Library.Sublist" "HOL-Library.Stream"
begin

section \<open>The production runner \<^verbatim>\<open>run_production.py\<close>\<close>

text \<open>
  The script reads a table of companies, posts it in three batches (\<^verbatim>\<open>core\<close>,
  \<^verbatim>\<open>advanced\<close>, \<^verbatim>\<open>powerhouse\<close>) to one endpoint through \<^verbatim>\<open>curl\<close>, writes each
  answer as a table and ends with a summary file. The embedding follows the three
  functions of the script. What the Python libraries hand to the script is input of the
  model: the rows that \<^verbatim>\<open>csv.DictReader\<close> yields, the value that \<^verbatim>\<open>json.loads\<close> returns
  (or its \<^verbatim>\<open>JSONDecodeError\<close>), the exit status of \<^verbatim>\<open>curl\<close> and the readings of
  \<^verbatim>\<open>time.time()\<close>. Every exception the script can raise on these inputs is a value of
  type \<open>error\<close>. Whether a file can be opened for writing is a property of the world;
  console output is not modelled, but the expressions evaluated for it are, since they
  can raise.
\<close>

datatype error =
    KeyError | AttributeError | TypeError | ValueError | IndexError | FileNotFoundError
  | OSError

subsection \<open>Python string methods used by the loader\<close>

text \<open>
  The case operations below are those of Python on ASCII text, one \<open>char\<close> per
  character: the cased characters are the letters \<^verbatim>\<open>a\<close>-\<^verbatim>\<open>z\<close> and \<^verbatim>\<open>A\<close>-\<^verbatim>\<open>Z\<close>, and every
  other ASCII character is uncased and is its own title and lower case. Python decides
  the case of a character beyond ASCII from the Unicode tables, which are not part of
  this model: what is proved of a title-cased name is stated for ASCII strings
  (\<open>is_ascii\<close>) only.
\<close>

definition is_ascii :: "string \<Rightarrow> bool" where
  "is_ascii s = (\<forall>c \<in> set s. (of_char c :: nat) < 128)"

definition is_lower :: "char \<Rightarrow> bool" where
  "is_lower c = (97 \<le> (of_char c :: nat) \<and> (of_char c :: nat) \<le> 122)"

definition is_upper :: "char \<Rightarrow> bool" where
  "is_upper c = (65 \<le> (of_char c :: nat) \<and> (of_char c :: nat) \<le> 90)"

definition is_cased :: "char \<Rightarrow> bool" where
  "is_cased c = (is_lower c \<or> is_upper c)"

definition to_upper :: "char \<Rightarrow> char" where
  "to_upper c = (if is_lower c then char_of ((of_char c :: nat) - 32) else c)"

definition to_lower :: "char \<Rightarrow> char" where
  "to_lower c = (if is_upper c then char_of ((of_char c :: nat) + 32) else c)"

text \<open>
  \<^verbatim>\<open>s.replace(old, new)\<close>: one scan from the left; every occurrence found is replaced and
  the scan resumes behind it, so occurrences do not overlap and text produced by a
  replacement is not scanned again. For an empty \<^verbatim>\<open>old\<close> Python puts \<^verbatim>\<open>new\<close> before every
  character and at the end.
\<close>

function py_replace :: "string \<Rightarrow> string \<Rightarrow> string \<Rightarrow> string" where
  "py_replace old new s =
     (if old = [] then (case s of [] \<Rightarrow> new | c # cs \<Rightarrow> new @ c # py_replace old new cs)
      else if s = [] then []
      else if prefix old s then new @ py_replace old new (drop (length old) s)
      else hd s # py_replace old new (tl s))"
  by pat_completeness auto
termination
  by (relation "measure (\<lambda>(old, new, s). length s)") (auto simp: neq_Nil_conv)

declare py_replace.simps [simp del]

text \<open>\<^verbatim>\<open>s.split(sep)\<close> for a separator of one character: the list of segments, never empty.\<close>

fun py_split :: "char \<Rightarrow> string \<Rightarrow> string list" where
  "py_split sep [] = [[]]"
| "py_split sep (c # cs) =
     (if c = sep then [] # py_split sep cs
      else (case py_split sep cs of [] \<Rightarrow> [[c]] | seg # segs \<Rightarrow> (c # seg) # segs))"

text \<open>\<^verbatim>\<open>xs[0]\<close> on a list raises \<^verbatim>\<open>IndexError\<close> when the list is empty.\<close>

definition py_index0 :: "'a list \<Rightarrow> error + 'a" where
  "py_index0 xs = (case xs of [] \<Rightarrow> Inl IndexError | x # _ \<Rightarrow> Inr x)"

text \<open>
  \<^verbatim>\<open>s.title()\<close>, as CPython's \<^verbatim>\<open>do_title\<close> computes it: a character that follows a cased
  character is lower-cased, any other character is title-cased (upper-cased, for ASCII).
\<close>

fun do_title :: "bool \<Rightarrow> string \<Rightarrow> string" where
  "do_title previous_is_cased [] = []"
| "do_title previous_is_cased (c # cs) =
     (if previous_is_cased then to_lower c else to_upper c) # do_title (is_cased c) cs"

definition py_title :: "string \<Rightarrow> string" where
  "py_title s = do_title False s"

subsection \<open>\<^verbatim>\<open>load_companies\<close>\<close>

text \<open>
  A row as \<^verbatim>\<open>csv.DictReader\<close> yields it: a dictionary from the column names of the header
  to the cells of the line. A line shorter than the header has the value \<^verbatim>\<open>None\<close> under
  the columns it does not reach, so a cell is a \<open>string option\<close>; a column that the header
  does not have is no key of the row. (The cells beyond the header of a longer line are
  kept under the key \<^verbatim>\<open>None\<close>, which the script never reads.)
\<close>

type_synonym row = "string \<rightharpoonup> string option"

record company =
  companyName :: string
  domain :: string
  accountOwner :: "string option"

text \<open>Line 18: the expression that computes \<^verbatim>\<open>company_name\<close> from \<^verbatim>\<open>website\<close>.\<close>

definition company_name :: "string \<Rightarrow> error + string" where
  "company_name website =
     (case py_index0 (py_split (CHR ''.'')
             (py_replace ''www.'' []
               (py_replace ''http://'' []
                 (py_replace ''https://'' [] website)))) of
        Inl e \<Rightarrow> Inl e
      | Inr label \<Rightarrow> Inr (py_title label))"

text \<open>
  Lines 17 to 23, the body of the loop for one row. \<^verbatim>\<open>row['Website']\<close> raises
  \<^verbatim>\<open>KeyError\<close> without the key; \<^verbatim>\<open>None.replace\<close> raises \<^verbatim>\<open>AttributeError\<close>;
  \<^verbatim>\<open>row['Account Owner']\<close> is read last and is copied as it is, \<^verbatim>\<open>None\<close> included.
\<close>

definition loop_body :: "row \<Rightarrow> error + company" where
  "loop_body row =
     (case row ''Website'' of
        None \<Rightarrow> Inl KeyError
      | Some None \<Rightarrow> Inl AttributeError
      | Some (Some website) \<Rightarrow>
          (case company_name website of
             Inl e \<Rightarrow> Inl e
           | Inr name \<Rightarrow>
               (case row ''Account Owner'' of
                  None \<Rightarrow> Inl KeyError
                | Some owner \<Rightarrow>
                    Inr \<lparr>companyName = name, domain = website, accountOwner = owner\<rparr>)))"

text \<open>
  Line 15, \<^verbatim>\<open>if limit and i >= limit: break\<close>. Both \<^verbatim>\<open>None\<close> and \<^verbatim>\<open>0\<close> are false in
  Python, so the comparison is made for a non-zero limit only.
\<close>

definition limit_reached :: "int option \<Rightarrow> nat \<Rightarrow> bool" where
  "limit_reached limit i =
     (case limit of None \<Rightarrow> False | Some n \<Rightarrow> n \<noteq> 0 \<and> n \<le> int i)"

text \<open>The loop of lines 14 to 23 over the rows still to read, at index \<open>i\<close>.\<close>

fun load_loop :: "int option \<Rightarrow> nat \<Rightarrow> row list \<Rightarrow> company list \<Rightarrow> error + company list" where
  "load_loop limit i [] companies = Inr companies"
| "load_loop limit i (row # rest) companies =
     (if limit_reached limit i then Inr companies
      else (case loop_body row of
              Inl e \<Rightarrow> Inl e
            | Inr c \<Rightarrow> load_loop limit (Suc i) rest (companies @ [c])))"

subsection \<open>JSON values and the operations the script applies to them\<close>

datatype json =
    JNull
  | JBool bool
  | JNum rat
  | JStr string
  | JArr "json list"
  | JObj "(string \<times> json) list"

text \<open>
  A \<open>JObj\<close> is a Python dictionary with its keys in insertion order. \<^verbatim>\<open>json.loads\<close>
  produces strings as keys only.
\<close>

text \<open>\<^verbatim>\<open>key in data\<close> for a string \<open>key\<close>.\<close>

definition py_in :: "string \<Rightarrow> json \<Rightarrow> error + bool" where
  "py_in key data =
     (case data of
        JObj kvs \<Rightarrow> Inr (key \<in> set (map fst kvs))
      | JArr xs \<Rightarrow> Inr (JStr key \<in> set xs)
      | JStr s \<Rightarrow> Inr (sublist key s)
      | _ \<Rightarrow> Inl TypeError)"

text \<open>\<^verbatim>\<open>data[key]\<close> for a string \<open>key\<close>.\<close>

definition py_getitem :: "json \<Rightarrow> string \<Rightarrow> error + json" where
  "py_getitem data key =
     (case data of
        JObj kvs \<Rightarrow> (case map_of kvs key of None \<Rightarrow> Inl KeyError | Some v \<Rightarrow> Inr v)
      | _ \<Rightarrow> Inl TypeError)"

text \<open>\<^verbatim>\<open>len(x)\<close>.\<close>

definition py_len :: "json \<Rightarrow> error + nat" where
  "py_len x =
     (case x of
        JArr xs \<Rightarrow> Inr (length xs)
      | JStr s \<Rightarrow> Inr (length s)
      | JObj kvs \<Rightarrow> Inr (length kvs)
      | _ \<Rightarrow> Inl TypeError)"

text \<open>The truth value of \<open>x\<close> in \<^verbatim>\<open>if x:\<close>.\<close>

definition py_bool :: "json \<Rightarrow> bool" where
  "py_bool x =
     (case x of
        JNull \<Rightarrow> False
      | JBool b \<Rightarrow> b
      | JNum n \<Rightarrow> n \<noteq> 0
      | JStr s \<Rightarrow> s \<noteq> []
      | JArr xs \<Rightarrow> xs \<noteq> []
      | JObj kvs \<Rightarrow> kvs \<noteq> [])"

text \<open>\<^verbatim>\<open>x[0]\<close>. No dictionary from \<^verbatim>\<open>json.loads\<close> has the key \<^verbatim>\<open>0\<close>.\<close>

definition py_getitem0 :: "json \<Rightarrow> error + json" where
  "py_getitem0 x =
     (case x of
        JArr xs \<Rightarrow> py_index0 xs
      | JStr s \<Rightarrow> (case s of [] \<Rightarrow> Inl IndexError | c # _ \<Rightarrow> Inr (JStr [c]))
      | JObj kvs \<Rightarrow> Inl KeyError
      | _ \<Rightarrow> Inl TypeError)"

text \<open>\<^verbatim>\<open>x.keys()\<close>.\<close>

definition py_keys :: "json \<Rightarrow> error + string list" where
  "py_keys x = (case x of JObj kvs \<Rightarrow> Inr (map fst kvs) | _ \<Rightarrow> Inl AttributeError)"

text \<open>The items that iterating over \<open>x\<close> yields.\<close>

definition py_iter :: "json \<Rightarrow> error + json list" where
  "py_iter x =
     (case x of
        JArr xs \<Rightarrow> Inr xs
      | JStr s \<Rightarrow> Inr (map (\<lambda>c. JStr [c]) s)
      | JObj kvs \<Rightarrow> Inr (map (\<lambda>kv. JStr (fst kv)) kvs)
      | _ \<Rightarrow> Inl TypeError)"

subsection \<open>Python floats\<close>

text \<open>
  A Python float is a binary double: a rational that 53 bits of mantissa can hold. Every
  operation on floats returns the double nearest to the exact result, a tie going to the
  even mantissa; \<open>to_double\<close> is this rounding, with the smaller steps of the
  subnormal range. (No number of this script comes near the largest double, so results
  beyond it are not modelled.) \<open>float_exponent x\<close> is the exponent \<open>e\<close> with
  \<open>2\<^sup>e \<le> \<bar>x\<bar> < 2\<^sup>e\<^sup>+\<^sup>1\<close>.
\<close>

text \<open>The integer nearest to \<open>y\<close>, a tie going to the even one.\<close>

definition round_half_even :: "rat \<Rightarrow> int" where
  "round_half_even y =
     (let f = \<lfloor>y\<rfloor>; d = y - of_int f
      in if d < 1 / 2 then f else if 1 / 2 < d then f + 1 else if even f then f else f + 1)"

fun bit_length :: "nat \<Rightarrow> nat" where
  "bit_length n = (if n = 0 then 0 else Suc (bit_length (n div 2)))"

declare bit_length.simps [simp del]

definition float_exponent :: "rat \<Rightarrow> int" where
  "float_exponent x =
     (let (p, q) = quotient_of \<bar>x\<bar>;
          e = int (bit_length (nat p)) - int (bit_length (nat q))
      in if power_int 2 e \<le> \<bar>x\<bar> then e else e - 1)"

definition to_double :: "rat \<Rightarrow> rat" where
  "to_double x =
     (if x = 0 then 0
      else (let ulp = power_int 2 (max (float_exponent x) (- 1022) - 52)
            in of_int (round_half_even (x / ulp)) * ulp))"

text \<open>\<^verbatim>\<open>a - b\<close> and \<^verbatim>\<open>a / b\<close> on floats; the script divides by 60 only.\<close>

definition float_sub :: "rat \<Rightarrow> rat \<Rightarrow> rat" where
  "float_sub a b = to_double (a - b)"

definition float_div :: "rat \<Rightarrow> rat \<Rightarrow> rat" where
  "float_div a b = to_double (a / b)"

text \<open>
  \<^verbatim>\<open>round(x, ndigits)\<close> rounds the exact value of the float \<open>x\<close> to the nearest
  multiple of \<open>10\<^sup>-\<^sup>n\<close>, a tie going to the even one, and returns the double nearest to
  that decimal number. \<open>py_round\<close> is the decimal number, which is what
  \<^verbatim>\<open>json.dump\<close> prints for the result.
\<close>

definition py_round :: "rat \<Rightarrow> nat \<Rightarrow> rat" where
  "py_round x ndigits = of_int (round_half_even (x * 10 ^ ndigits)) / 10 ^ ndigits"

subsection \<open>The world the script runs in\<close>

text \<open>
  What \<^verbatim>\<open>subprocess.run\<close> returns for the \<^verbatim>\<open>curl\<close> call. \<open>stdout_json\<close> is the value of
  \<^verbatim>\<open>json.loads(result.stdout)\<close>, \<open>None\<close> when it raises \<^verbatim>\<open>JSONDecodeError\<close>.
\<close>

record curl_result =
  returncode :: int
  stdout_json :: "json option"
  stderr :: string

text \<open>
  The files the script writes: the payload of a request, a table of results as the list
  of its lines (the header first, every line a list of cells), and the summary.
\<close>

datatype file_content =
    Payload string "company list"
  | Csv_file "json list list"
  | Summary nat nat nat rat

text \<open>
  \<open>inputs\<close> are the tables that can be opened for reading, each as the rows
  \<^verbatim>\<open>csv.DictReader\<close> yields from it; \<open>files\<close> are the files written; \<open>clock\<close> holds the
  coming readings of \<^verbatim>\<open>time.time()\<close> and \<open>transport\<close> the outcomes of the coming
  \<^verbatim>\<open>curl\<close> calls; \<open>requests\<close> records, in order, the URL and the body of every request
  made; \<open>writable\<close> holds of the paths that \<^verbatim>\<open>open(path, 'w')\<close> can open. On any other
  path \<^verbatim>\<open>open\<close> raises \<^verbatim>\<open>FileNotFoundError\<close> (the directory is missing) or another
  subclass of \<^verbatim>\<open>OSError\<close>, which the script never catches. The readings of the clock are
  floats.
\<close>

record world =
  inputs :: "string \<rightharpoonup> row list"
  files :: "string \<rightharpoonup> file_content"
  clock :: "rat stream"
  transport :: "curl_result stream"
  requests :: "(string \<times> file_content option) list"
  writable :: "string \<Rightarrow> bool"

definition API_URL :: string where
  "API_URL = ''https://adrata-pipelines-8lsb7z0z0-adrata.vercel.app/api/production-ready''"

definition time_time :: "world \<Rightarrow> rat \<times> world" where
  "time_time w = (shd (clock w), w\<lparr>clock := stl (clock w)\<rparr>)"

definition write_file :: "string \<Rightarrow> file_content \<Rightarrow> world \<Rightarrow> world" where
  "write_file path content w = w\<lparr>files := (files w)(path \<mapsto> content)\<rparr>"

text \<open>
  Lines 38 to 44: \<^verbatim>\<open>curl\<close> posts the contents of the payload file (\<^verbatim>\<open>-d @file\<close>). The
  programs \<^verbatim>\<open>curl\<close> and \<^verbatim>\<open>mkdir\<close> are taken to be installed, so that
  \<^verbatim>\<open>subprocess.run\<close> returns a result.
\<close>

definition subprocess_run_curl :: "string \<Rightarrow> world \<Rightarrow> curl_result \<times> world" where
  "subprocess_run_curl temp_file w =
     (shd (transport w),
      w\<lparr>transport := stl (transport w),
        requests := requests w @ [(API_URL, files w temp_file)]\<rparr>)"

text \<open>
  \<^verbatim>\<open>load_companies\<close>, lines 10 to 24. Opening a file that is not there raises
  \<^verbatim>\<open>FileNotFoundError\<close>. The function changes nothing in the world.
\<close>

definition load_companies :: "string \<Rightarrow> int option \<Rightarrow> world \<Rightarrow> error + company list" where
  "load_companies filename limit w =
     (case inputs w filename of
        None \<Rightarrow> Inl FileNotFoundError
      | Some rows \<Rightarrow> load_loop limit 0 rows [])"

subsection \<open>\<^verbatim>\<open>run_single_pipeline\<close>\<close>

text \<open>
  \<^verbatim>\<open>DictWriter._dict_to_list\<close> with the default \<^verbatim>\<open>extrasaction='raise'\<close> and
  \<^verbatim>\<open>restval=''\<close>: a key outside the header raises \<^verbatim>\<open>ValueError\<close>, a header column the
  row does not have gives an empty cell.
\<close>

definition dict_to_list :: "string list \<Rightarrow> json \<Rightarrow> error + json list" where
  "dict_to_list fieldnames rowdict =
     (case py_keys rowdict of
        Inl e \<Rightarrow> Inl e
      | Inr ks \<Rightarrow>
          if \<exists>k \<in> set ks. k \<notin> set fieldnames then Inl ValueError
          else (case rowdict of
                  JObj kvs \<Rightarrow>
                    Inr (map (\<lambda>key. case map_of kvs key of None \<Rightarrow> JStr [] | Some v \<Rightarrow> v)
                           fieldnames)
                | _ \<Rightarrow> Inl AttributeError))"

text \<open>
  \<^verbatim>\<open>writer.writerows\<close>: the rows are converted and written one after the other, so the
  lines before a row that raises stay in the file.
\<close>

fun writerows :: "string list \<Rightarrow> json list \<Rightarrow> json list list \<Rightarrow> (error + unit) \<times> json list list" where
  "writerows fieldnames [] lines = (Inr (), lines)"
| "writerows fieldnames (rowdict # rowdicts) lines =
     (case dict_to_list fieldnames rowdict of
        Inl e \<Rightarrow> (Inl e, lines)
      | Inr cells \<Rightarrow> writerows fieldnames rowdicts (lines @ [cells]))"

text \<open>
  Lines 58 to 61, entered when \<^verbatim>\<open>results\<close> is true. \<^verbatim>\<open>open\<close> raises on a path that
  cannot be written; opening the file empties it.
\<close>

definition save_csv :: "string \<Rightarrow> json \<Rightarrow> world \<Rightarrow> (error + unit) \<times> world" where
  "save_csv csv_file results w =
     (if \<not> writable w csv_file then (Inl OSError, w) else
      let w1 = write_file csv_file (Csv_file []) w in
      case py_getitem0 results of
        Inl e \<Rightarrow> (Inl e, w1)
      | Inr first \<Rightarrow>
          (case py_keys first of
             Inl e \<Rightarrow> (Inl e, w1)
           | Inr fieldnames \<Rightarrow>
               (let header = map JStr fieldnames;
                    w2 = write_file csv_file (Csv_file [header]) w1 in
                case py_iter results of
                  Inl e \<Rightarrow> (Inl e, w2)
                | Inr rowdicts \<Rightarrow>
                    (case writerows fieldnames rowdicts [header] of
                       (r, lines) \<Rightarrow> (r, write_file csv_file (Csv_file lines) w2)))))"

definition temp_path :: "string \<Rightarrow> string" where
  "temp_path pipeline_type = ''/tmp/'' @ pipeline_type @ ''_payload.json''"

definition csv_path :: "string \<Rightarrow> string \<Rightarrow> string" where
  "csv_path output_dir pipeline_type = output_dir @ ''/'' @ pipeline_type @ ''-pipeline-results.csv''"

text \<open>
  Lines 26 to 73. Line 33 opens the payload file and raises when it cannot be written,
  before any call is made. Only \<^verbatim>\<open>json.JSONDecodeError\<close> is caught (line 68); every
  other exception raised inside leaves the function. \<^verbatim>\<open>len(results)\<close> is evaluated for
  the message of line 53, before the results file is opened. \<^verbatim>\<open>elapsed\<close> is a difference
  of floats.
\<close>

definition run_single_pipeline ::
  "string \<Rightarrow> company list \<Rightarrow> string \<Rightarrow> world \<Rightarrow> (error + json \<times> rat) \<times> world" where
  "run_single_pipeline pipeline_type companies output_dir w =
     (let temp_file = temp_path pipeline_type in
      if \<not> writable w temp_file then (Inl OSError, w) else
      let w1 = write_file temp_file (Payload pipeline_type companies) w;
          (start_time, w2) = time_time w1;
          (result, w3) = subprocess_run_curl temp_file w2;
          (end_time, w4) = time_time w3;
          elapsed = float_sub end_time start_time
      in if returncode result = 0 then
           (case stdout_json result of
              None \<Rightarrow> (Inr (JArr [], elapsed), w4)
            | Some data \<Rightarrow>
                (case py_in ''results'' data of
                   Inl e \<Rightarrow> (Inl e, w4)
                 | Inr False \<Rightarrow> (Inr (JArr [], elapsed), w4)
                 | Inr True \<Rightarrow>
                     (case py_getitem data ''results'' of
                        Inl e \<Rightarrow> (Inl e, w4)
                      | Inr results \<Rightarrow>
                          (case py_len results of
                             Inl e \<Rightarrow> (Inl e, w4)
                           | Inr n \<Rightarrow>
                               if py_bool results then
                                 (case save_csv (csv_path output_dir pipeline_type) results w4 of
                                    (Inl e, w5) \<Rightarrow> (Inl e, w5)
                                  | (Inr u, w5) \<Rightarrow> (Inr (results, elapsed), w5))
                               else (Inr (results, elapsed), w4)))))
         else (Inr (JArr [], elapsed), w4))"

subsection \<open>\<^verbatim>\<open>main\<close>\<close>

definition output_dir :: string where
  "output_dir = ''/Users/rosssylvester/Desktop/FINAL''"

definition input_path :: string where
  "input_path = ''inputs/all-1233-companies.csv''"

definition summary_path :: string where
  "summary_path = output_dir @ ''/summary.json''"

text \<open>
  Lines 75 to 111. \<^verbatim>\<open>mkdir -p\<close> runs with \<^verbatim>\<open>check=False\<close>, so its failure is not
  noticed; \<open>writable\<close> tells what can be written once it has run. An exception raised by
  the loader, by a batch or by opening the summary leaves \<^verbatim>\<open>main\<close> at once, with the
  world as it is then. The three batch times \<^verbatim>\<open>core_time\<close>, \<^verbatim>\<open>advanced_time\<close> and
  \<^verbatim>\<open>powerhouse_time\<close> are bound and not used again: \<^verbatim>\<open>total_time\<close> is the difference of
  two readings of the clock.
\<close>

definition main :: "world \<Rightarrow> (error + unit) \<times> world" where
  "main w =
     (case load_companies input_path None w of
        Inl e \<Rightarrow> (Inl e, w)
      | Inr all_companies \<Rightarrow>
          (let (total_start, w1) = time_time w in
           case run_single_pipeline ''core'' all_companies output_dir w1 of
             (Inl e, w2) \<Rightarrow> (Inl e, w2)
           | (Inr (core_results, core_time), w2) \<Rightarrow>
           (case run_single_pipeline ''advanced'' (take 100 all_companies) output_dir w2 of
             (Inl e, w3) \<Rightarrow> (Inl e, w3)
           | (Inr (advanced_results, advanced_time), w3) \<Rightarrow>
           (case run_single_pipeline ''powerhouse'' (take 10 all_companies) output_dir w3 of
             (Inl e, w4) \<Rightarrow> (Inl e, w4)
           | (Inr (powerhouse_results, powerhouse_time), w4) \<Rightarrow>
           (let (now, w5) = time_time w4;
                total_time = float_sub now total_start in
            case py_len core_results of
              Inl e \<Rightarrow> (Inl e, w5)
            | Inr n_core \<Rightarrow>
            (case py_len advanced_results of
              Inl e \<Rightarrow> (Inl e, w5)
            | Inr n_advanced \<Rightarrow>
            (case py_len powerhouse_results of
              Inl e \<Rightarrow> (Inl e, w5)
            | Inr n_powerhouse \<Rightarrow>
                if \<not> writable w5 summary_path then (Inl OSError, w5)
                else
                  (Inr (),
                   write_file summary_path
                     (Summary n_core n_advanced n_powerhouse
                        (py_round (float_div total_time 60) 1))
                     w5))))))))"

section \<open>Definitions used to state the properties\<close>

subsection \<open>The company name as the specification words it\<close>

text \<open>
  The specification derives the name in four steps: remove a leading \<^verbatim>\<open>https://\<close> or
  \<^verbatim>\<open>http://\<close>, remove a leading \<^verbatim>\<open>www.\<close>, keep the text before the first \<^verbatim>\<open>.\<close>, and
  capitalize the first letter of each whitespace-separated word.
\<close>

definition spec_strip_scheme :: "string \<Rightarrow> string" where
  "spec_strip_scheme s =
     (if prefix ''https://'' s then drop 8 s
      else if prefix ''http://'' s then drop 7 s else s)"

definition spec_strip_www :: "string \<Rightarrow> string" where
  "spec_strip_www s = (if prefix ''www.'' s then drop 4 s else s)"

definition is_space :: "char \<Rightarrow> bool" where
  "is_space c = (c \<in> set [CHR '' '', CHR 0x09, CHR 0x0A, CHR 0x0B, CHR 0x0C, CHR 0x0D])"

fun spec_capitalize_words :: "bool \<Rightarrow> string \<Rightarrow> string" where
  "spec_capitalize_words word_start [] = []"
| "spec_capitalize_words word_start (c # cs) =
     (if is_space c then c # spec_capitalize_words True cs
      else (if word_start then to_upper c else c) # spec_capitalize_words False cs)"

definition spec_company_name :: "string \<Rightarrow> string" where
  "spec_company_name website =
     spec_capitalize_words True
       (takeWhile (\<lambda>c. c \<noteq> CHR ''.'') (spec_strip_www (spec_strip_scheme website)))"

text \<open>
  The derivation as amended: every occurrence of the three literals is deleted, wherever
  it stands; the text before the first \<^verbatim>\<open>.\<close> is kept; a letter is upper-cased when it is
  the first character or follows a character that is no letter, and lower-cased otherwise.
\<close>

definition title_case :: "string \<Rightarrow> string" where
  "title_case s =
     map (\<lambda>i. if 0 < i \<and> is_cased (s ! (i - 1)) then to_lower (s ! i) else to_upper (s ! i))
       [0..<length s]"

definition amended_company_name :: "string \<Rightarrow> string" where
  "amended_company_name website =
     title_case (takeWhile (\<lambda>c. c \<noteq> CHR ''.'')
       (py_replace ''www.'' [] (py_replace ''http://'' [] (py_replace ''https://'' [] website))))"

subsection \<open>The sum of floats, for the total time as the specification words it\<close>

definition float_add :: "rat \<Rightarrow> rat \<Rightarrow> rat" where
  "float_add a b = to_double (a + b)"

subsection \<open>What a batch returns, as a function of the outcome of its call\<close>

text \<open>
  Once the payload file is written, whether \<^verbatim>\<open>run_single_pipeline\<close> returns or raises,
  and which results it returns, depends on the outcome of the \<^verbatim>\<open>curl\<close> call and on
  whether the results file can be written: \<open>returned_results\<close> runs it in a world
  where every file can be written and that holds nothing else.
\<close>

definition blank_world :: "curl_result \<Rightarrow> world" where
  "blank_world r =
     \<lparr>inputs = Map.empty, files = Map.empty, clock = sconst 0, transport = sconst r,
      requests = [], writable = (\<lambda>path. True)\<rparr>"

definition returned_results :: "curl_result \<Rightarrow> error + json" where
  "returned_results r = map_sum id fst (fst (run_single_pipeline [] [] [] (blank_world r)))"

text \<open>
  The three failures that lines 65 to 73 handle: a non-zero exit status, a body that is no
  JSON, and a parsed body in which \<^verbatim>\<open>'results' in data\<close> is false.
\<close>

definition caught_failure :: "curl_result \<Rightarrow> bool" where
  "caught_failure r =
     (returncode r \<noteq> 0 \<or>
      (case stdout_json r of None \<Rightarrow> True | Some data \<Rightarrow> py_in ''results'' data = Inr False))"

text \<open>The world after lines 33 to 46: payload written, clock read twice, one call made.\<close>

definition all_writable :: "world \<Rightarrow> bool" where
  "all_writable w = (\<forall>path. writable w path)"

definition after_call :: "string \<Rightarrow> company list \<Rightarrow> world \<Rightarrow> world" where
  "after_call m cs w =
     snd (time_time (snd (subprocess_run_curl (temp_path m)
       (snd (time_time (write_file (temp_path m) (Payload m cs) w))))))"

subsection \<open>Example inputs\<close>

definition row_example :: row where
  "row_example =
     [''Website'' \<mapsto> Some ''https://www.Example.com/path'', ''Account Owner'' \<mapsto> Some ''Ann'']"

text \<open>A line that ends before the \<^verbatim>\<open>Account Owner\<close> column.\<close>

definition row_acme :: row where
  "row_acme = [''Website'' \<mapsto> Some ''http://acme.io'', ''Account Owner'' \<mapsto> None]"

text \<open>A row of a table whose header has no \<^verbatim>\<open>Account Owner\<close> column.\<close>

definition row_no_owner :: row where
  "row_no_owner = [''Name'' \<mapsto> Some ''Initech'', ''Website'' \<mapsto> Some ''www.initech.com'']"

text \<open>
  The line \<^verbatim>\<open>Initech\<close> under the header \<^verbatim>\<open>Name,Website\<close>: the \<^verbatim>\<open>Website\<close> cell is
  \<^verbatim>\<open>None\<close>, and there is no \<^verbatim>\<open>Account Owner\<close> column.
\<close>

definition row_short :: row where
  "row_short = [''Name'' \<mapsto> Some ''Initech'', ''Website'' \<mapsto> None]"

definition company_example :: company where
  "company_example =
     \<lparr>companyName = ''Example'', domain = ''https://www.Example.com/path'',
      accountOwner = Some ''Ann''\<rparr>"

definition company_acme :: company where
  "company_acme = \<lparr>companyName = ''Acme'', domain = ''http://acme.io'', accountOwner = None\<rparr>"

definition refused :: curl_result where
  "refused = \<lparr>returncode = 7, stdout_json = None, stderr = ''connection refused''\<rparr>"

text \<open>A body that is no JSON, an error object, the body \<^verbatim>\<open>null\<close>, and answers with results.\<close>

definition garbage :: curl_result where
  "garbage = \<lparr>returncode = 0, stdout_json = None, stderr = []\<rparr>"

definition error_object :: curl_result where
  "error_object =
     \<lparr>returncode = 0, stdout_json = Some (JObj [(''error'', JStr ''overloaded'')]), stderr = []\<rparr>"

definition null_body :: curl_result where
  "null_body = \<lparr>returncode = 0, stdout_json = Some JNull, stderr = []\<rparr>"

definition bad_results :: curl_result where
  "bad_results =
     \<lparr>returncode = 0, stdout_json = Some (JObj [(''results'', JNum 5)]), stderr = []\<rparr>"

definition two_rows :: curl_result where
  "two_rows =
     \<lparr>returncode = 0,
      stdout_json = Some (JObj [(''results'',
        JArr [JObj [(''company'', JStr ''Example''), (''score'', JNum 7)],
              JObj [(''company'', JStr ''Acme'')]])]),
      stderr = []\<rparr>"

definition demo_world :: "row list \<Rightarrow> curl_result list \<Rightarrow> world" where
  "demo_world rows rs =
     \<lparr>inputs = [input_path \<mapsto> rows], files = Map.empty,
      clock = [0, 10, 130, 140, 200, 210, 240, 252] @- sconst 252,
      transport = rs @- sconst refused, requests = [], writable = (\<lambda>path. True)\<rparr>"

text \<open>
  The worlds that a run with three caught failures passes through: after the first
  reading of the clock, after the \<^verbatim>\<open>core\<close> batch and after the \<^verbatim>\<open>advanced\<close> batch.
\<close>

definition demo_w1 :: world where
  "demo_w1 = snd (time_time (demo_world [row_example] [refused, garbage, error_object]))"

definition demo_w2 :: world where
  "demo_w2 = snd (run_single_pipeline ''core'' [company_example] output_dir demo_w1)"

definition demo_w3 :: world where
  "demo_w3 =
     snd (run_single_pipeline ''advanced'' (take 100 [company_example]) output_dir demo_w2)"

section \<open>Properties of the loader\<close>

lemmas char_eval =
  is_cased_def is_lower_def is_upper_def to_upper_def to_lower_def char_of_def bit_Suc_0_iff

lemmas row_eval =
  loop_body_def company_name_def py_index0_def py_title_def py_replace.simps char_eval

lemma py_split_not_Nil: "py_split sep s \<noteq> []"
  by (induction s) (auto split: list.splits)

lemma py_split_first: "py_index0 (py_split sep s) = Inr (takeWhile (\<lambda>c. c \<noteq> sep) s)"
  by (induction s) (auto simp: py_index0_def split: list.splits)

lemma do_title_index:
  "do_title b s =
     map (\<lambda>i. if (if i = 0 then b else is_cased (s ! (i - 1))) then to_lower (s ! i) else to_upper (s ! i))
       [0..<length s]"
proof (induction s arbitrary: b)
  case Nil
  show ?case by simp
next
  case (Cons c cs)
  have "map (\<lambda>i. if (if i = 0 then b else is_cased ((c # cs) ! (i - 1))) then to_lower ((c # cs) ! i)
                   else to_upper ((c # cs) ! i)) [0..<length (c # cs)]
        = (if b then to_lower c else to_upper c)
          # map (\<lambda>i. if (if i = 0 then is_cased c else is_cased (cs ! (i - 1))) then to_lower (cs ! i)
                        else to_upper (cs ! i)) [0..<length cs]"
    unfolding length_Cons map_upt_Suc
    by (auto simp: nth_Cons split: nat.splits)
  then show ?case using Cons.IH [of "is_cased c"] by simp
qed

lemma py_title_title_case: "py_title s = title_case s"
  unfolding py_title_def title_case_def do_title_index
  by (rule map_cong) auto

lemma load_loop_take:
  "(load_loop limit i rows acc = Inr recs) =
   (\<exists>new. recs = acc @ new \<and>
      list_all2 (\<lambda>row c. loop_body row = Inr c)
        (take (case limit of None \<Rightarrow> length rows
               | Some n \<Rightarrow> if n = 0 then length rows else nat n - i) rows) new)"
proof (induction rows arbitrary: i acc)
  case Nil
  show ?case by auto
next
  case (Cons row rest)
  let ?P = "\<lambda>row c. loop_body row = Inr c"
  let ?k = "\<lambda>i rows. case limit of None \<Rightarrow> length rows
               | Some n \<Rightarrow> if n = 0 then length rows else nat n - i"
  show ?case
  proof (cases "limit_reached limit i")
    case True
    then obtain n where n: "limit = Some n" "n \<noteq> 0" "n \<le> int i"
      by (cases limit) (simp_all add: limit_reached_def)
    then have "?k i (row # rest) = 0" by simp
    then have "take (?k i (row # rest)) (row # rest) = []" by simp
    moreover have "load_loop limit i (row # rest) acc = Inr acc" using True by simp
    ultimately show ?thesis by auto
  next
    case False
    have k: "?k i (row # rest) = Suc (?k (Suc i) rest)"
    proof (cases limit)
      case None
      then show ?thesis by simp
    next
      case (Some n)
      with False have "n = 0 \<or> int i < n" by (auto simp: limit_reached_def)
      then show ?thesis using Some by auto
    qed
    have t: "take (?k i (row # rest)) (row # rest) = row # take (?k (Suc i) rest) rest"
      unfolding k by simp
    show ?thesis
    proof (cases "loop_body row")
      case (Inl e)
      then have "load_loop limit i (row # rest) acc = Inl e" using False by simp
      moreover have "\<not> list_all2 ?P (row # take (?k (Suc i) rest) rest) new" for new
        using Inl by (simp add: list_all2_Cons1)
      ultimately show ?thesis unfolding t by simp
    next
      case (Inr c)
      then have l: "load_loop limit i (row # rest) acc = load_loop limit (Suc i) rest (acc @ [c])"
        using False by simp
      have "(\<exists>new. recs = acc @ new \<and> list_all2 ?P (row # take (?k (Suc i) rest) rest) new)
          = (\<exists>new'. recs = (acc @ [c]) @ new' \<and> list_all2 ?P (take (?k (Suc i) rest) rest) new')"
        (is "?L = ?R")
      proof
        assume ?L
        then obtain new where new: "recs = acc @ new"
          "list_all2 ?P (row # take (?k (Suc i) rest) rest) new" by blast
        from new(2) obtain c' new' where c': "new = c' # new'" "loop_body row = Inr c'"
          "list_all2 ?P (take (?k (Suc i) rest) rest) new'"
          by (auto simp: list_all2_Cons1)
        from c'(2) Inr have "c' = c" by simp
        with new(1) c' show ?R by (intro exI [of _ new']) simp
      next
        assume ?R
        then obtain new' where new': "recs = (acc @ [c]) @ new'"
          "list_all2 ?P (take (?k (Suc i) rest) rest) new'" by blast
        with Inr show ?L by (intro exI [of _ "c # new'"]) simp
      qed
      then show ?thesis unfolding l t Cons.IH [of "Suc i" "acc @ [c]"] by simp
    qed
  qed
qed

lemma load_loop_error:
  "(load_loop None i rows acc = Inl e) =
   (\<exists>k < length rows. loop_body (rows ! k) = Inl e \<and> (\<forall>j < k. \<not> isl (loop_body (rows ! j))))"
proof (induction rows arbitrary: i acc)
  case Nil
  show ?case by simp
next
  case (Cons row rest)
  show ?case
  proof (cases "loop_body row")
    case (Inl e')
    have "(\<exists>k < length (row # rest). loop_body ((row # rest) ! k) = Inl e \<and>
             (\<forall>j < k. \<not> isl (loop_body ((row # rest) ! j)))) = (e' = e)"
    proof
      assume "\<exists>k < length (row # rest). loop_body ((row # rest) ! k) = Inl e \<and>
             (\<forall>j < k. \<not> isl (loop_body ((row # rest) ! j)))"
      then obtain k where k: "loop_body ((row # rest) ! k) = Inl e"
        "\<forall>j < k. \<not> isl (loop_body ((row # rest) ! j))" by blast
      have "k = 0"
      proof (rule ccontr)
        assume "k \<noteq> 0"
        then have "\<not> isl (loop_body ((row # rest) ! 0))" using k(2) by blast
        then show False using Inl by simp
      qed
      then show "e' = e" using k(1) Inl by simp
    next
      assume "e' = e"
      then show "\<exists>k < length (row # rest). loop_body ((row # rest) ! k) = Inl e \<and>
             (\<forall>j < k. \<not> isl (loop_body ((row # rest) ! j)))"
        using Inl by (intro exI [of _ 0]) simp
    qed
    then show ?thesis using Inl by (simp add: limit_reached_def)
  next
    case (Inr c)
    have "(\<exists>k < length (row # rest). loop_body ((row # rest) ! k) = Inl e \<and>
             (\<forall>j < k. \<not> isl (loop_body ((row # rest) ! j))))
        = (\<exists>k < length rest. loop_body (rest ! k) = Inl e \<and>
             (\<forall>j < k. \<not> isl (loop_body (rest ! j))))" (is "?L = ?R")
    proof
      assume ?L
      then obtain k where k: "k < length (row # rest)" "loop_body ((row # rest) ! k) = Inl e"
        "\<forall>j < k. \<not> isl (loop_body ((row # rest) ! j))" by blast
      then obtain k' where k': "k = Suc k'" using Inr by (cases k) auto
      have "\<forall>j < k'. \<not> isl (loop_body (rest ! j))"
      proof (intro allI impI)
        fix j assume "j < k'"
        then have "Suc j < k" using k' by simp
        then have "\<not> isl (loop_body ((row # rest) ! Suc j))" using k(3) by blast
        then show "\<not> isl (loop_body (rest ! j))" by simp
      qed
      with k k' show ?R by auto
    next
      assume ?R
      then obtain k where k: "k < length rest" "loop_body (rest ! k) = Inl e"
        "\<forall>j < k. \<not> isl (loop_body (rest ! j))" by blast
      have "\<forall>j < Suc k. \<not> isl (loop_body ((row # rest) ! j))"
        using k(3) Inr by (auto simp: nth_Cons split: nat.splits)
      with k show ?L by (intro exI [of _ "Suc k"]) simp
    qed
    then show ?thesis using Inr by (simp add: limit_reached_def Cons.IH)
  qed
qed

lemma company_name_title_case: "company_name website = Inr (amended_company_name website)"
  by (simp add: company_name_def amended_company_name_def py_split_first py_title_title_case)

lemma load_companies_nth:
  assumes "load_companies filename limit w = Inr recs" and "inputs w filename = Some rows"
    and "i < length recs"
  shows "i < length rows \<and> loop_body (rows ! i) = Inr (recs ! i)"
proof -
  let ?k = "case limit of None \<Rightarrow> length rows
               | Some n \<Rightarrow> if n = 0 then length rows else nat n - 0"
  from assms(1,2) have "load_loop limit 0 rows [] = Inr recs"
    by (simp add: load_companies_def)
  then have l: "list_all2 (\<lambda>row c. loop_body row = Inr c) (take ?k rows) recs"
    unfolding load_loop_take by simp
  then have len: "length (take ?k rows) = length recs" by (rule list_all2_lengthD)
  with assms(3) have i: "i < length (take ?k rows)" by simp
  then have "i < length rows" "i < ?k" by simp_all
  moreover from l assms(3) have "loop_body (take ?k rows ! i) = Inr (recs ! i)"
    by (rule list_all2_nthD2)
  ultimately show ?thesis by simp
qed

text \<open>
  C1 (as amended). For every record the loader produces, \<open>domain\<close> is the \<^verbatim>\<open>Website\<close>
  string of the row at the record's position, and, when that string is ASCII text,
  \<open>companyName\<close> is derived from it by deleting every occurrence of \<^verbatim>\<open>https://\<close>, then
  every occurrence of \<^verbatim>\<open>http://\<close>, then every occurrence of \<^verbatim>\<open>www.\<close>, wherever they
  stand, keeping the text before the first \<^verbatim>\<open>.\<close>, and title-casing it: a letter that is
  first or follows a character that is no letter is upper-cased, every other letter is
  lower-cased.
\<close>

theorem company_name_amended:
  assumes "load_companies filename limit w = Inr recs" and "inputs w filename = Some rows"
    and "i < length recs"
  shows "\<exists>website. (rows ! i) ''Website'' = Some (Some website) \<and> domain (recs ! i) = website \<and>
           (is_ascii website \<longrightarrow> companyName (recs ! i) = amended_company_name website)"
proof -
  from load_companies_nth [OF assms] have b: "loop_body (rows ! i) = Inr (recs ! i)" by simp
  then obtain website where w: "(rows ! i) ''Website'' = Some (Some website)"
    by (auto simp: loop_body_def split: option.splits)
  from b w obtain owner where
    "\<lparr>companyName = amended_company_name website, domain = website,
       accountOwner = owner\<rparr> = recs ! i"
    by (auto simp: loop_body_def company_name_title_case split: option.splits)
  from this [symmetric] have "domain (recs ! i) = website"
    "companyName (recs ! i) = amended_company_name website"
    by simp_all
  with w show ?thesis by blast
qed

text \<open>The second record of a table of two rows is named \<^verbatim>\<open>Acme\<close>.\<close>

theorem company_name_amended_witness:
  "load_companies input_path None (demo_world [row_example, row_acme] [])
     = Inr [company_example, company_acme]
   \<and> ([row_example, row_acme] ! 1) ''Website'' = Some (Some ''http://acme.io'')
   \<and> is_ascii ''http://acme.io''
   \<and> amended_company_name ''http://acme.io'' = ''Acme''"
proof -
  have h1: "load_companies input_path None (demo_world [row_example, row_acme] [])
     = Inr [company_example, company_acme]"
    by (simp add: load_companies_def demo_world_def limit_reached_def
        row_example_def row_acme_def company_example_def company_acme_def row_eval)
  have h2: "inputs (demo_world [row_example, row_acme] []) input_path
     = Some [row_example, row_acme]"
    by (simp add: demo_world_def)
  have h3: "1 < length [company_example, company_acme]" by simp
  have a: "is_ascii ''http://acme.io''" by (simp add: is_ascii_def)
  have r: "([row_example, row_acme] ! 1) ''Website'' = Some (Some ''http://acme.io'')"
    by (simp add: row_acme_def)
  from company_name_amended [OF h1 h2 h3] r a
  have "companyName ([company_example, company_acme] ! 1) = amended_company_name ''http://acme.io''"
    by auto
  then have "amended_company_name ''http://acme.io'' = ''Acme''"
    by (simp add: company_acme_def)
  with h1 r a show ?thesis by simp
qed

text \<open>
  C1 as stated fails: \<^verbatim>\<open>www.\<close> is deleted inside \<^verbatim>\<open>ftp://www.example.com\<close> although it
  does not lead, the letter after \<^verbatim>\<open>//\<close> is capitalized, and the capital inside
  \<^verbatim>\<open>McDonalds\<close> is lower-cased.
\<close>

theorem company_name_counterexample:
  "company_name ''ftp://www.example.com'' = Inr ''Ftp://Example''
   \<and> spec_company_name ''ftp://www.example.com'' = ''Ftp://www''
   \<and> company_name ''McDonalds.com'' = Inr ''Mcdonalds''
   \<and> spec_company_name ''McDonalds.com'' = ''McDonalds''"
  by code_simp

text \<open>
  C9. For every input row whose \<^verbatim>\<open>Website\<close> field equals
  \<^verbatim>\<open>https://www.Example.com/path\<close>, the derived company name is \<^verbatim>\<open>Example\<close>: line 18
  computes it, and the record built from the row carries it (a row without the
  \<^verbatim>\<open>Account Owner\<close> key raises \<^verbatim>\<open>KeyError\<close> after the name is computed).
\<close>

theorem example_website:
  assumes "row ''Website'' = Some (Some ''https://www.Example.com/path'')"
  shows "company_name ''https://www.Example.com/path'' = Inr ''Example'' \<and>
         (case row ''Account Owner'' of
            None \<Rightarrow> loop_body row = Inl KeyError
          | Some owner \<Rightarrow>
              loop_body row =
                Inr \<lparr>companyName = ''Example'', domain = ''https://www.Example.com/path'',
                     accountOwner = owner\<rparr>)"
proof -
  have n: "company_name ''https://www.Example.com/path'' = Inr ''Example''"
    by (simp add: company_name_def py_index0_def py_title_def py_replace.simps char_eval)
  show ?thesis using assms n by (simp add: loop_body_def split: option.splits)
qed

text \<open>The row \<open>row_example\<close> has this \<^verbatim>\<open>Website\<close>.\<close>

theorem example_website_witness:
  "row_example ''Website'' = Some (Some ''https://www.Example.com/path'')
   \<and> loop_body row_example = Inr company_example"
proof -
  have h: "row_example ''Website'' = Some (Some ''https://www.Example.com/path'')"
    by (simp add: row_example_def)
  show ?thesis using h example_website [of row_example]
    by (simp add: row_example_def company_example_def)
qed

text \<open>
  C4 (as amended). For every input file and every maximum count \<open>n\<close> greater than zero,
  the loader returns exactly the records derived from the first \<open>min n N\<close> of the \<open>N\<close>
  input rows, in input row order (and it returns them whenever each of these rows yields
  a record); the returned sequence never has more than \<open>n\<close> records.
\<close>

theorem load_companies_limit:
  assumes "0 < n" and "inputs w filename = Some rows"
  shows "((load_companies filename (Some n) w = Inr recs) =
          list_all2 (\<lambda>row c. loop_body row = Inr c) (take (min (nat n) (length rows)) rows) recs)
         \<and> (load_companies filename (Some n) w = Inr recs \<longrightarrow> int (length recs) \<le> n)"
proof -
  have t: "take (min (nat n) (length rows)) rows = take (nat n) rows"
    by (cases "nat n \<le> length rows") (simp_all add: min_def)
  have e: "(load_companies filename (Some n) w = Inr recs) =
          list_all2 (\<lambda>row c. loop_body row = Inr c) (take (nat n) rows) recs"
    using assms by (simp add: load_companies_def load_loop_take)
  have "int (length recs) \<le> n"
    if "list_all2 (\<lambda>row c. loop_body row = Inr c) (take (nat n) rows) recs"
    using list_all2_lengthD [OF that] assms(1) by simp
  with e show ?thesis unfolding t by blast
qed

text \<open>Two of three rows are read with the limit 2; the third row would raise.\<close>

theorem load_companies_limit_witness:
  "0 < (2::int)
   \<and> inputs (demo_world [row_example, row_acme, row_no_owner] []) input_path
       = Some [row_example, row_acme, row_no_owner]
   \<and> load_companies input_path (Some 2) (demo_world [row_example, row_acme, row_no_owner] [])
       = Inr [company_example, company_acme]"
proof -
  have h1: "0 < (2::int)" by simp
  have h2: "inputs (demo_world [row_example, row_acme, row_no_owner] []) input_path
       = Some [row_example, row_acme, row_no_owner]"
    by (simp add: demo_world_def)
  have b: "loop_body row_example = Inr company_example" "loop_body row_acme = Inr company_acme"
    by (simp_all add: row_example_def row_acme_def company_example_def company_acme_def row_eval)
  show ?thesis
    using h1 h2 b load_companies_limit [OF h1 h2, of "[company_example, company_acme]"]
    by (simp add: numeral_2_eq_2)
qed

text \<open>
  C4 as stated fails for the count 0: the loader returns both records of a table of two
  rows, which is more than 0 records.
\<close>

theorem load_companies_limit_counterexample:
  "load_companies input_path (Some 0) (demo_world [row_example, row_acme] [])
     = Inr [company_example, company_acme]"
  by (simp add: load_companies_def demo_world_def limit_reached_def
      row_example_def row_acme_def company_example_def company_acme_def row_eval)

lemma load_loop_zero: "load_loop (Some 0) i rows acc = load_loop None i rows acc"
  by (induction rows arbitrary: i acc) (auto simp: limit_reached_def split: sum.splits)

text \<open>
  C10. For every input file, the loader called with the maximum count 0 does what it does
  with no limit: it returns the records of all rows of the file, not an empty sequence.
\<close>

theorem zero_limit_is_no_limit:
  "load_companies filename (Some 0) w = load_companies filename None w
   \<and> (inputs w filename = Some rows \<longrightarrow>
        (load_companies filename (Some 0) w = Inr recs) =
        list_all2 (\<lambda>row c. loop_body row = Inr c) rows recs)"
  by (simp add: load_companies_def load_loop_zero load_loop_take split: option.splits)

text \<open>All three rows of a table are returned under the limit 0.\<close>

theorem zero_limit_is_no_limit_witness:
  "inputs (demo_world [row_example, row_acme, row_example] []) input_path
       = Some [row_example, row_acme, row_example]
   \<and> load_companies input_path (Some 0) (demo_world [row_example, row_acme, row_example] [])
       = Inr [company_example, company_acme, company_example]"
proof -
  have h: "inputs (demo_world [row_example, row_acme, row_example] []) input_path
       = Some [row_example, row_acme, row_example]"
    by (simp add: demo_world_def)
  have b: "loop_body row_example = Inr company_example" "loop_body row_acme = Inr company_acme"
    by (simp_all add: row_example_def row_acme_def company_example_def company_acme_def row_eval)
  show ?thesis
    using h b zero_limit_is_no_limit [of input_path
        "demo_world [row_example, row_acme, row_example] []"
        "[row_example, row_acme, row_example]"
        "[company_example, company_acme, company_example]"]
    by auto
qed

lemma company_name_returns: "company_name website = Inr (py_title (takeWhile (\<lambda>c. c \<noteq> CHR ''.'')
    (py_replace ''www.'' [] (py_replace ''http://'' [] (py_replace ''https://'' [] website)))))"
  by (simp add: company_name_def py_split_first)

text \<open>
  C8 (as amended). For every input row, the loader fails with a \<^verbatim>\<open>KeyError\<close> (the
  specification's MissingFieldError) if and only if the row has no \<^verbatim>\<open>Website\<close> key, or
  its \<^verbatim>\<open>Website\<close> cell is a string and the row has no \<^verbatim>\<open>Account Owner\<close> key. The failure
  of the first failing row of the input file is not caught: \<open>main\<close> ends with it, before
  any request is made or any file written.
\<close>

theorem missing_field:
  "((loop_body row = Inl KeyError) =
      (row ''Website'' = None \<or>
       (\<exists>website. row ''Website'' = Some (Some website)) \<and> row ''Account Owner'' = None))
   \<and> (inputs w input_path = Some rows \<and> k < length rows \<and> rows ! k = row \<and>
        (\<forall>j < k. \<not> isl (loop_body (rows ! j))) \<and> loop_body row = Inl e
        \<longrightarrow> main w = (Inl e, w))"
proof -
  have a: "(loop_body row = Inl KeyError) =
      (row ''Website'' = None \<or>
       (\<exists>website. row ''Website'' = Some (Some website)) \<and> row ''Account Owner'' = None)"
    by (auto simp: loop_body_def company_name_returns split: option.splits)
  have b: "main w = (Inl e, w)"
    if "inputs w input_path = Some rows" "k < length rows" "rows ! k = row"
      "\<forall>j < k. \<not> isl (loop_body (rows ! j))" "loop_body row = Inl e"
  proof -
    have "load_loop None 0 rows [] = Inl e"
      unfolding load_loop_error using that by blast
    then show ?thesis using that(1) by (simp add: main_def load_companies_def)
  qed
  from a b show ?thesis by blast
qed

text \<open>The second row of a table lacks the \<^verbatim>\<open>Account Owner\<close> column.\<close>

theorem missing_field_witness:
  "loop_body row_no_owner = Inl KeyError
   \<and> main (demo_world [row_example, row_no_owner, row_acme] [])
       = (Inl KeyError, demo_world [row_example, row_no_owner, row_acme] [])"
proof -
  have b: "loop_body row_example = Inr company_example"
    by (simp add: row_example_def company_example_def row_eval)
  have c: "(row_no_owner ''Website'' = None \<or>
       (\<exists>website. row_no_owner ''Website'' = Some (Some website)) \<and>
       row_no_owner ''Account Owner'' = None)"
    by (simp add: row_no_owner_def)
  have i: "inputs (demo_world [row_example, row_no_owner, row_acme] []) input_path
      = Some [row_example, row_no_owner, row_acme]"
    by (simp add: demo_world_def)
  show ?thesis
    using b c i missing_field [of row_no_owner
        "demo_world [row_example, row_no_owner, row_acme] []"
        "[row_example, row_no_owner, row_acme]" 1 KeyError]
    by simp
qed

text \<open>
  C8 as stated fails: the row \<open>row_short\<close> lacks the \<^verbatim>\<open>Account Owner\<close> field, and the
  loader fails on it with \<^verbatim>\<open>AttributeError\<close>, not with the missing-field error, since its
  \<^verbatim>\<open>Website\<close> cell is \<^verbatim>\<open>None\<close>.
\<close>

theorem missing_field_counterexample:
  "row_short ''Account Owner'' = None \<and> loop_body row_short = Inl AttributeError"
  by (simp add: row_short_def loop_body_def)

section \<open>Properties of a batch\<close>

lemma write_file_twice [simp]: "write_file p c (write_file p c' w) = write_file p c w"
  by (simp add: write_file_def)

lemma save_csv_world:
  "snd (save_csv p results w) = w
   \<or> (\<exists>lines. snd (save_csv p results w) = write_file p (Csv_file lines) w)"
  by (auto simp: save_csv_def Let_def split: sum.splits prod.splits)

lemma save_csv_fst:
  "writable w p = writable w' p' \<Longrightarrow> fst (save_csv p results w) = fst (save_csv p' results w')"
  by (auto simp: save_csv_def Let_def split: sum.splits prod.splits)





lemma after_call_simps [simp]:
  "clock (after_call m cs w) = stl (stl (clock w))"
  "transport (after_call m cs w) = stl (transport w)"
  "requests (after_call m cs w) = requests w @ [(API_URL, Some (Payload m cs))]"
  "inputs (after_call m cs w) = inputs w"
  "files (after_call m cs w) = (files w)(temp_path m \<mapsto> Payload m cs)"
  "writable (after_call m cs w) = writable w"
  by (simp_all add: after_call_def time_time_def subprocess_run_curl_def write_file_def)

lemma write_file_simps [simp]:
  "clock (write_file p c w) = clock w"
  "transport (write_file p c w) = transport w"
  "requests (write_file p c w) = requests w"
  "inputs (write_file p c w) = inputs w"
  "files (write_file p c w) = (files w)(p \<mapsto> c)"
  "writable (write_file p c w) = writable w"
  by (simp_all add: write_file_def)

lemma rsp_unwritable:
  "\<not> writable w (temp_path m) \<Longrightarrow> run_single_pipeline m cs od w = (Inl OSError, w)"
  by (simp add: run_single_pipeline_def)

lemma rsp_alt:
  "writable w (temp_path m) \<Longrightarrow>
   run_single_pipeline m cs od w =
     (let result = shd (transport w); w4 = after_call m cs w;
          elapsed = float_sub (shd (stl (clock w))) (shd (clock w))
      in if returncode result = 0 then
           (case stdout_json result of
              None \<Rightarrow> (Inr (JArr [], elapsed), w4)
            | Some data \<Rightarrow>
                (case py_in ''results'' data of
                   Inl e \<Rightarrow> (Inl e, w4)
                 | Inr False \<Rightarrow> (Inr (JArr [], elapsed), w4)
                 | Inr True \<Rightarrow>
                     (case py_getitem data ''results'' of
                        Inl e \<Rightarrow> (Inl e, w4)
                      | Inr results \<Rightarrow>
                          (case py_len results of
                             Inl e \<Rightarrow> (Inl e, w4)
                           | Inr n \<Rightarrow>
                               if py_bool results then
                                 (case save_csv (csv_path od m) results w4 of
                                    (Inl e, w5) \<Rightarrow> (Inl e, w5)
                                  | (Inr u, w5) \<Rightarrow> (Inr (results, elapsed), w5))
                               else (Inr (results, elapsed), w4)))))
         else (Inr (JArr [], elapsed), w4))"
  by (simp add: run_single_pipeline_def after_call_def Let_def time_time_def
      subprocess_run_curl_def write_file_def split_def
      cong: if_cong option.case_cong sum.case_cong bool.case_cong)

lemma save_csv_case_fst:
  "fst (case save_csv p x w of (Inl e, w5) \<Rightarrow> (Inl e, w5) | (Inr u, w5) \<Rightarrow> (Inr y, w5))
     = (case fst (save_csv p x w) of Inl e \<Rightarrow> Inl e | Inr u \<Rightarrow> Inr y)"
  by (cases "save_csv p x w") (auto split: sum.splits)

lemma rsp_fst:
  assumes "writable w (temp_path m)" and "writable w (csv_path od m)"
  shows "fst (run_single_pipeline m cs od w) =
     (case returned_results (shd (transport w)) of
        Inl e \<Rightarrow> Inl e
      | Inr results \<Rightarrow> Inr (results, float_sub (shd (stl (clock w))) (shd (clock w))))"
proof -
  let ?r = "shd (transport w)"
  have b: "shd (transport (blank_world ?r)) = ?r" "writable (blank_world ?r) p" for p
    by (simp_all add: blank_world_def)
  note defs = rsp_alt [of w m cs od, OF assms(1)]
    rsp_alt [of "blank_world ?r" "[]" "[]" "[]", OF b(2)]
    returned_results_def Let_def b
  show ?thesis
  proof (cases "returncode ?r = 0")
    case False
    then show ?thesis by (simp add: defs)
  next
    case rc: True
    show ?thesis
    proof (cases "stdout_json ?r")
      case None
      with rc show ?thesis by (simp add: defs)
    next
      case (Some data)
      show ?thesis
      proof (cases "py_in ''results'' data")
        case (Inl e)
        with rc Some show ?thesis by (simp add: defs)
      next
        case (Inr found)
        show ?thesis
        proof (cases found)
          case False
          with rc Some Inr show ?thesis by (simp add: defs)
        next
          case True
          show ?thesis
          proof (cases "py_getitem data ''results''")
            case (Inl e)
            with rc Some Inr True show ?thesis by (simp add: defs)
          next
            case results: (Inr results)
            show ?thesis
            proof (cases "py_len results")
              case (Inl e)
              with rc Some Inr True results show ?thesis by (simp add: defs)
            next
              case n: (Inr n)
              show ?thesis
              proof (cases "py_bool results")
                case False
                with rc Some Inr True results n show ?thesis by (simp add: defs)
              next
                case t: True
                have "fst (save_csv (csv_path od m) results (after_call m cs w))
                    = fst (save_csv (csv_path [] []) results (after_call [] [] (blank_world ?r)))"
                  by (rule save_csv_fst) (simp add: assms b)
                with rc Some Inr True results n t show ?thesis
                  by (simp add: defs save_csv_case_fst split: sum.splits)
              qed
            qed
          qed
        qed
      qed
    qed
  qed
qed

lemma rsp_snd:
  assumes "writable w (temp_path m)"
  shows "snd (run_single_pipeline m cs od w) = after_call m cs w
   \<or> (\<exists>x. snd (run_single_pipeline m cs od w) = snd (save_csv (csv_path od m) x (after_call m cs w)))"
  unfolding rsp_alt [OF assms]
  apply (simp add: Let_def)
  apply (auto split: option.splits sum.splits bool.splits prod.splits)
   apply (metis snd_conv)+
  done

lemma rsp_frame:
  assumes "writable w (temp_path m)"
  shows "clock (snd (run_single_pipeline m cs od w)) = stl (stl (clock w))"
    and "transport (snd (run_single_pipeline m cs od w)) = stl (transport w)"
    and "requests (snd (run_single_pipeline m cs od w))
          = requests w @ [(API_URL, Some (Payload m cs))]"
    and "inputs (snd (run_single_pipeline m cs od w)) = inputs w"
    and "p \<noteq> temp_path m \<Longrightarrow> p \<noteq> csv_path od m \<Longrightarrow>
           files (snd (run_single_pipeline m cs od w)) p = files w p"
proof -
  consider (a) "snd (run_single_pipeline m cs od w) = after_call m cs w"
    | (b) lines where "snd (run_single_pipeline m cs od w)
         = write_file (csv_path od m) (Csv_file lines) (after_call m cs w)"
    using rsp_snd [OF assms, of cs od]
      save_csv_world [of "csv_path od m" _ "after_call m cs w"]
    by metis
  note c = this
  show "clock (snd (run_single_pipeline m cs od w)) = stl (stl (clock w))"
    using c by cases simp_all
  show "transport (snd (run_single_pipeline m cs od w)) = stl (transport w)"
    using c by cases simp_all
  show "requests (snd (run_single_pipeline m cs od w))
      = requests w @ [(API_URL, Some (Payload m cs))]"
    using c by cases simp_all
  show "inputs (snd (run_single_pipeline m cs od w)) = inputs w"
    using c by cases simp_all
  show "files (snd (run_single_pipeline m cs od w)) p = files w p"
    if "p \<noteq> temp_path m" "p \<noteq> csv_path od m"
    using c that by cases simp_all
qed

lemma rsp_writable: "writable (snd (run_single_pipeline m cs od w)) = writable w"
proof (cases "writable w (temp_path m)")
  case False
  then show ?thesis by (simp add: rsp_unwritable)
next
  case True
  from rsp_snd [OF True, of cs od] save_csv_world [of "csv_path od m" _ "after_call m cs w"]
  consider (a) "snd (run_single_pipeline m cs od w) = after_call m cs w"
    | (b) lines where "snd (run_single_pipeline m cs od w)
         = write_file (csv_path od m) (Csv_file lines) (after_call m cs w)"
    by metis
  then show ?thesis by cases simp_all
qed



text \<open>
  C5. For every mode, when the batch returns, the file \<^verbatim>\<open><mode>-pipeline-results.csv\<close> of
  the output directory is written if and only if the returned result sequence is not
  empty: an empty sequence leaves the file as it was, and for a non-empty one the file
  holds a header line with the keys of the first returned row, in that row's key order,
  followed by one data line for every returned row.
\<close>


lemmas json_eval =
  py_in_def py_getitem_def py_len_def py_bool_def py_getitem0_def py_keys_def py_iter_def
  dict_to_list_def py_index0_def save_csv_def

lemmas world_eval =
  demo_world_def time_time_def subprocess_run_curl_def write_file_def Let_def

lemma float_eval:
  "float_sub 10 0 = 10" "float_sub 130 10 = 120" "float_sub 200 140 = 60"
  "float_sub 240 210 = 30" "float_sub 252 0 = 252"
  "py_round (float_div 252 60) 1 = 21 / 5"
  "py_round (float_div (float_add (float_add 120 60) 30) 60) 1 = 7 / 2"
  by code_simp+

lemma float_eval_Suc:
  "py_round (float_div 252 60) (Suc 0) = 21 / 5"
  "py_round (float_div (float_add (float_add 120 60) 30) 60) (Suc 0) = 7 / 2"
  using float_eval(6,7) by simp_all


lemma snth_2: "s !! 2 = shd (stl (stl s))"
  by (simp add: eval_nat_numeral)

lemma snth_7: "s !! 7 = shd (stl (stl (stl (stl (stl (stl (stl s)))))))"
  by (simp add: eval_nat_numeral)




lemma caught_failure_returned: "caught_failure r \<Longrightarrow> returned_results r = Inr (JArr [])"
  by (auto simp: caught_failure_def returned_results_def rsp_alt Let_def blank_world_def
      split: option.splits)




section \<open>Properties of a run\<close>

lemma rsp_returns_len:
  assumes "run_single_pipeline m cs od w = (Inr (results, elapsed), w')"
  shows "\<exists>n. py_len results = Inr n"
proof -
  have wr: "writable w (temp_path m)"
    using assms rsp_unwritable [of w m cs od] by auto
  from assms show ?thesis
    unfolding rsp_alt [OF wr]
    by (auto simp: Let_def py_len_def
        split: option.splits sum.splits bool.splits prod.splits if_splits)
qed

lemma returned_results_len:
  assumes "returned_results r = Inr x"
  shows "\<exists>n. py_len x = Inr n"
proof -
  obtain out w' where p: "run_single_pipeline [] [] [] (blank_world r) = (out, w')"
    by (cases "run_single_pipeline [] [] [] (blank_world r)")
  from assms p have "map_sum id fst out = Inr x" by (simp add: returned_results_def)
  then obtain el where "out = Inr (x, el)" by (cases out) auto
  with p show ?thesis using rsp_returns_len by blast
qed

lemma rsp_run:
  assumes "all_writable w"
  shows "\<exists>w'. run_single_pipeline m cs od w =
       ((case returned_results (shd (transport w)) of
           Inl e \<Rightarrow> Inl e
         | Inr x \<Rightarrow> Inr (x, float_sub (shd (stl (clock w))) (shd (clock w)))), w')
     \<and> clock w' = stl (stl (clock w))
     \<and> transport w' = stl (transport w)
     \<and> requests w' = requests w @ [(API_URL, Some (Payload m cs))]
     \<and> (\<forall>p. p \<noteq> temp_path m \<longrightarrow> p \<noteq> csv_path od m \<longrightarrow> files w' p = files w p)
     \<and> all_writable w'"
proof -
  have wr: "writable w p" for p using assms by (simp add: all_writable_def)
  show ?thesis
  proof (intro exI [of _ "snd (run_single_pipeline m cs od w)"] conjI allI impI)
    show "run_single_pipeline m cs od w =
       ((case returned_results (shd (transport w)) of
           Inl e \<Rightarrow> Inl e
         | Inr x \<Rightarrow> Inr (x, float_sub (shd (stl (clock w))) (shd (clock w)))),
        snd (run_single_pipeline m cs od w))"
      using rsp_fst [OF wr wr] by (simp add: prod_eq_iff)
    show "all_writable (snd (run_single_pipeline m cs od w))"
      using assms by (simp add: all_writable_def rsp_writable)
  qed (simp_all add: rsp_frame [OF wr])
qed

lemma summary_path_distinct:
  "summary_path \<noteq> temp_path m" "summary_path \<noteq> csv_path output_dir m"
proof -
  show "summary_path \<noteq> temp_path m"
    by (simp add: summary_path_def temp_path_def output_dir_def)
  show "summary_path \<noteq> csv_path output_dir m"
  proof
    assume "summary_path = csv_path output_dir m"
    then have "last summary_path = last (csv_path output_dir m)" by simp
    then show False by (simp add: summary_path_def csv_path_def)
  qed
qed

lemma main_run:
  assumes load: "load_companies input_path None w = Inr all" and wr: "all_writable w"
  shows "fst (main w) =
           (case returned_results (transport w !! 0) of Inl e \<Rightarrow> Inl e | Inr x1 \<Rightarrow>
            (case returned_results (transport w !! 1) of Inl e \<Rightarrow> Inl e | Inr x2 \<Rightarrow>
             (case returned_results (transport w !! 2) of Inl e \<Rightarrow> Inl e | Inr x3 \<Rightarrow> Inr ())))"
    and "requests (snd (main w)) =
           requests w @
           take (if isl (returned_results (transport w !! 0)) then 1
                 else if isl (returned_results (transport w !! 1)) then 2 else 3)
             [(API_URL, Some (Payload ''core'' all)),
              (API_URL, Some (Payload ''advanced'' (take 100 all))),
              (API_URL, Some (Payload ''powerhouse'' (take 10 all)))]"
    and "returned_results (transport w !! 0) = Inr x1 \<Longrightarrow>
         returned_results (transport w !! 1) = Inr x2 \<Longrightarrow>
         returned_results (transport w !! 2) = Inr x3 \<Longrightarrow>
         \<exists>n1 n2 n3. py_len x1 = Inr n1 \<and> py_len x2 = Inr n2 \<and> py_len x3 = Inr n3 \<and>
           files (snd (main w)) summary_path =
             Some (Summary n1 n2 n3
               (py_round (float_div (float_sub (clock w !! 7) (clock w !! 0)) 60) 1))"
    and "isl (returned_results (transport w !! 0)) \<or> isl (returned_results (transport w !! 1))
           \<or> isl (returned_results (transport w !! 2)) \<Longrightarrow>
         files (snd (main w)) summary_path = files w summary_path"
proof -
  let ?w1 = "snd (time_time w)"
  have w1: "clock ?w1 = stl (clock w)" "transport ?w1 = transport w"
    "requests ?w1 = requests w" "files ?w1 = files w" "all_writable ?w1"
    using wr by (simp_all add: time_time_def all_writable_def)
  obtain w2 where p1: "run_single_pipeline ''core'' all output_dir ?w1 =
       ((case returned_results (shd (transport ?w1)) of
           Inl e \<Rightarrow> Inl e
         | Inr x \<Rightarrow> Inr (x, float_sub (shd (stl (clock ?w1))) (shd (clock ?w1)))), w2)"
    and w2: "clock w2 = stl (stl (clock ?w1))" "transport w2 = stl (transport ?w1)"
      "requests w2 = requests ?w1 @ [(API_URL, Some (Payload ''core'' all))]"
      "\<And>p. p \<noteq> temp_path ''core'' \<Longrightarrow> p \<noteq> csv_path output_dir ''core'' \<Longrightarrow>
         files w2 p = files ?w1 p"
      "all_writable w2"
    using rsp_run [OF w1(5), of "''core''" all output_dir] by blast
  obtain w3 where p2: "run_single_pipeline ''advanced'' (take 100 all) output_dir w2 =
       ((case returned_results (shd (transport w2)) of
           Inl e \<Rightarrow> Inl e
         | Inr x \<Rightarrow> Inr (x, float_sub (shd (stl (clock w2))) (shd (clock w2)))), w3)"
    and w3: "clock w3 = stl (stl (clock w2))" "transport w3 = stl (transport w2)"
      "requests w3 = requests w2 @ [(API_URL, Some (Payload ''advanced'' (take 100 all)))]"
      "\<And>p. p \<noteq> temp_path ''advanced'' \<Longrightarrow> p \<noteq> csv_path output_dir ''advanced'' \<Longrightarrow>
         files w3 p = files w2 p"
      "all_writable w3"
    using rsp_run [OF w2(5), of "''advanced''" "take 100 all" output_dir] by blast
  obtain w4 where p3: "run_single_pipeline ''powerhouse'' (take 10 all) output_dir w3 =
       ((case returned_results (shd (transport w3)) of
           Inl e \<Rightarrow> Inl e
         | Inr x \<Rightarrow> Inr (x, float_sub (shd (stl (clock w3))) (shd (clock w3)))), w4)"
    and w4: "clock w4 = stl (stl (clock w3))" "transport w4 = stl (transport w3)"
      "requests w4 = requests w3 @ [(API_URL, Some (Payload ''powerhouse'' (take 10 all)))]"
      "\<And>p. p \<noteq> temp_path ''powerhouse'' \<Longrightarrow> p \<noteq> csv_path output_dir ''powerhouse'' \<Longrightarrow>
         files w4 p = files w3 p"
      "all_writable w4"
    using rsp_run [OF w3(5), of "''powerhouse''" "take 10 all" output_dir] by blast
  have t: "transport w !! 0 = shd (transport ?w1)" "transport w !! 1 = shd (transport w2)"
    "transport w !! 2 = shd (transport w3)"
    by (simp_all add: w1 w2 w3 snth_2)
  have f2: "files w2 summary_path = files w summary_path"
    using w2(4) [of summary_path] summary_path_distinct w1 by simp
  have f3: "files w3 summary_path = files w summary_path"
    using w3(4) [of summary_path] summary_path_distinct f2 by simp
  have f4: "files w4 summary_path = files w summary_path"
    using w4(4) [of summary_path] summary_path_distinct f3 by simp
  have c7: "shd (clock w4) = clock w !! 7"
    by (simp add: w1 w2 w3 w4 snth_7)
  have s4: "writable w4 summary_path" using w4(5) by (simp add: all_writable_def)
  note run = main_def load split_def Let_def p1 p2 p3
  consider (r1) e where "returned_results (shd (transport ?w1)) = Inl e"
    | (r2) x1 e where "returned_results (shd (transport ?w1)) = Inr x1"
        "returned_results (shd (transport w2)) = Inl e"
    | (r3) x1 x2 e where "returned_results (shd (transport ?w1)) = Inr x1"
        "returned_results (shd (transport w2)) = Inr x2"
        "returned_results (shd (transport w3)) = Inl e"
    | (r4) x1 x2 x3 where "returned_results (shd (transport ?w1)) = Inr x1"
        "returned_results (shd (transport w2)) = Inr x2"
        "returned_results (shd (transport w3)) = Inr x3"
    by (metis sum.exhaust)
  note c = this
  have m: "main w =
     (case returned_results (shd (transport ?w1)) of Inl e \<Rightarrow> (Inl e, w2) | Inr x1 \<Rightarrow>
      (case returned_results (shd (transport w2)) of Inl e \<Rightarrow> (Inl e, w3) | Inr x2 \<Rightarrow>
       (case returned_results (shd (transport w3)) of Inl e \<Rightarrow> (Inl e, w4) | Inr x3 \<Rightarrow>
          (Inr (),
           write_file summary_path
             (Summary (projr (py_len x1)) (projr (py_len x2)) (projr (py_len x3))
                (py_round (float_div (float_sub (clock w !! 7) (clock w !! 0)) 60) 1))
             (snd (time_time w4))))))"
  using c proof cases
    case r1
    then show ?thesis by (simp add: run)
  next
    case r2
    then show ?thesis by (simp add: run)
  next
    case r3
    then show ?thesis by (simp add: run)
  next
    case r4
    from returned_results_len [OF r4(1)] obtain n1 where n1: "py_len x1 = Inr n1" by blast
    from returned_results_len [OF r4(2)] obtain n2 where n2: "py_len x2 = Inr n2" by blast
    from returned_results_len [OF r4(3)] obtain n3 where n3: "py_len x3 = Inr n3" by blast
    have "main w = (Inr (),
           write_file summary_path
             (Summary n1 n2 n3
                (py_round (float_div (float_sub (shd (clock w4)) (shd (clock w))) 60) 1))
             (snd (time_time w4)))"
      using r4 s4 n1 n2 n3 by (simp add: run) (simp add: time_time_def)
    then show ?thesis using r4 n1 n2 n3 by (simp add: c7)
  qed
  show "fst (main w) =
           (case returned_results (transport w !! 0) of Inl e \<Rightarrow> Inl e | Inr x1 \<Rightarrow>
            (case returned_results (transport w !! 1) of Inl e \<Rightarrow> Inl e | Inr x2 \<Rightarrow>
             (case returned_results (transport w !! 2) of Inl e \<Rightarrow> Inl e | Inr x3 \<Rightarrow> Inr ())))"
    unfolding m t by (simp split: sum.splits)
  show "requests (snd (main w)) =
           requests w @
           take (if isl (returned_results (transport w !! 0)) then 1
                 else if isl (returned_results (transport w !! 1)) then 2 else 3)
             [(API_URL, Some (Payload ''core'' all)),
              (API_URL, Some (Payload ''advanced'' (take 100 all))),
              (API_URL, Some (Payload ''powerhouse'' (take 10 all)))]"
    unfolding m t by (simp add: w1 w2 w3 w4 time_time_def eval_nat_numeral split: sum.splits)
  show "\<exists>n1 n2 n3. py_len x1 = Inr n1 \<and> py_len x2 = Inr n2 \<and> py_len x3 = Inr n3 \<and>
           files (snd (main w)) summary_path =
             Some (Summary n1 n2 n3
               (py_round (float_div (float_sub (clock w !! 7) (clock w !! 0)) 60) 1))"
    if "returned_results (transport w !! 0) = Inr x1"
       "returned_results (transport w !! 1) = Inr x2"
       "returned_results (transport w !! 2) = Inr x3"
  proof -
    from returned_results_len [OF that(1)] obtain n1 where n1: "py_len x1 = Inr n1" by blast
    from returned_results_len [OF that(2)] obtain n2 where n2: "py_len x2 = Inr n2" by blast
    from returned_results_len [OF that(3)] obtain n3 where n3: "py_len x3 = Inr n3" by blast
    from that n1 n2 n3 show ?thesis unfolding m t [symmetric] by simp
  qed
  show "files (snd (main w)) summary_path = files w summary_path"
    if "isl (returned_results (transport w !! 0)) \<or> isl (returned_results (transport w !! 1))
           \<or> isl (returned_results (transport w !! 2))"
    using that unfolding m t by (auto simp: f2 f3 f4 isl_def split: sum.splits)
qed

lemmas main_eval =
  main_def load_companies_def limit_reached_def run_single_pipeline_def world_eval json_eval
  float_eval float_eval_Suc split_def temp_path_def csv_path_def output_dir_def summary_path_def
  input_path_def row_example_def row_acme_def company_example_def company_acme_def row_eval
  refused_def garbage_def error_object_def null_body_def bad_results_def two_rows_def

lemma rsp_returns_frame:
  assumes "run_single_pipeline m cs od w = (Inr (x, el), w')"
  shows "clock w' = stl (stl (clock w))"
proof -
  have wr: "writable w (temp_path m)"
    using assms rsp_unwritable [of w m cs od] by auto
  from rsp_frame(1) [OF wr, of cs od] assms show ?thesis by simp
qed

text \<open>
  C3 (as amended). For every run that writes \<^verbatim>\<open>summary.json\<close>, its
  \<^verbatim>\<open>total_time_minutes\<close> is the reading of the clock after the third batch minus the
  reading before the first batch (the eighth and the first reading of the run), divided
  by 60 and rounded to one decimal place.
\<close>

theorem total_time_is_wall_clock:
  assumes "main w = (Inr (), w')"
  shows "\<exists>n1 n2 n3. files w' summary_path =
           Some (Summary n1 n2 n3
             (py_round (float_div (float_sub (clock w !! 7) (clock w !! 0)) 60) 1))"
proof -
  let ?w1 = "snd (time_time w)"
  obtain all where load: "load_companies input_path None w = Inr all"
    using assms by (cases "load_companies input_path None w") (simp_all add: main_def)
  note run = main_def load split_def Let_def
  obtain o1 w2 where p1: "run_single_pipeline ''core'' all output_dir ?w1 = (o1, w2)"
    by (cases "run_single_pipeline ''core'' all output_dir ?w1")
  obtain x1 e1 where o1: "o1 = Inr (x1, e1)"
    using assms p1 by (cases o1) (auto simp: run)
  obtain o2 w3 where p2: "run_single_pipeline ''advanced'' (take 100 all) output_dir w2 = (o2, w3)"
    by (cases "run_single_pipeline ''advanced'' (take 100 all) output_dir w2")
  obtain x2 e2 where o2: "o2 = Inr (x2, e2)"
    using assms p1 o1 p2 by (cases o2) (auto simp: run)
  obtain o3 w4 where p3: "run_single_pipeline ''powerhouse'' (take 10 all) output_dir w3 = (o3, w4)"
    by (cases "run_single_pipeline ''powerhouse'' (take 10 all) output_dir w3")
  obtain x3 e3 where o3: "o3 = Inr (x3, e3)"
    using assms p1 o1 p2 o2 p3 by (cases o3) (auto simp: run)
  from rsp_returns_len p1 o1 obtain n1 where n1: "py_len x1 = Inr n1" by blast
  from rsp_returns_len p2 o2 obtain n2 where n2: "py_len x2 = Inr n2" by blast
  from rsp_returns_len p3 o3 obtain n3 where n3: "py_len x3 = Inr n3" by blast
  have c: "clock w2 = stl (stl (clock ?w1))" "clock w3 = stl (stl (clock w2))"
    "clock w4 = stl (stl (clock w3))"
    using rsp_returns_frame p1 o1 p2 o2 p3 o3 by blast+
  have c7: "shd (clock w4) = clock w !! 7"
    by (simp add: c time_time_def snth_7)
  have m: "main w =
     (if \<not> writable (snd (time_time w4)) summary_path then (Inl OSError, snd (time_time w4))
      else (Inr (),
            write_file summary_path
              (Summary n1 n2 n3
                 (py_round (float_div (float_sub (shd (clock w4)) (shd (clock w))) 60) 1))
              (snd (time_time w4))))"
    by (simp add: run p1 o1 p2 o2 p3 o3 n1 n2 n3) (simp add: time_time_def)
  have "w' = write_file summary_path
              (Summary n1 n2 n3
                 (py_round (float_div (float_sub (shd (clock w4)) (shd (clock w))) 60) 1))
              (snd (time_time w4))"
  proof (cases "writable (snd (time_time w4)) summary_path")
    case True
    with assms [unfolded m] show ?thesis by simp
  next
    case False
    with assms [unfolded m] show ?thesis by simp
  qed
  then show ?thesis by (simp add: c7)
qed

text \<open>A run of 252 seconds writes 4.2 minutes.\<close>

theorem total_time_is_wall_clock_witness:
  "main (demo_world [row_example] [refused, two_rows, garbage])
     = (Inr (), snd (main (demo_world [row_example] [refused, two_rows, garbage])))
   \<and> files (snd (main (demo_world [row_example] [refused, two_rows, garbage]))) summary_path
       = Some (Summary 0 2 0 (21 / 5))"
proof -
  let ?w = "demo_world [row_example] [refused, two_rows, garbage]"
  have f: "fst (main ?w) = Inr ()"
    by (simp add: main_eval)
  then have h: "main ?w = (Inr (), snd (main ?w))" by (simp add: prod_eq_iff)
  have s: "files (snd (main ?w)) summary_path = Some (Summary 0 2 0 (21 / 5))"
    by (simp add: main_eval)
  from total_time_is_wall_clock [OF h] h s show ?thesis by simp
qed

text \<open>
  C3 as stated fails: in a run whose three batches return the elapsed times 120, 60 and
  30 seconds, their sum gives 3.5 minutes, and the summary holds 4.2 minutes, the 252
  seconds between the first and the last reading of the clock.
\<close>

theorem total_time_is_wall_clock_counterexample:
  "fst (run_single_pipeline ''core'' [company_example] output_dir demo_w1) = Inr (JArr [], 120)
   \<and> fst (run_single_pipeline ''advanced'' (take 100 [company_example]) output_dir demo_w2)
       = Inr (JArr [], 60)
   \<and> fst (run_single_pipeline ''powerhouse'' (take 10 [company_example]) output_dir demo_w3)
       = Inr (JArr [], 30)
   \<and> py_round (float_div (float_add (float_add 120 60) 30) 60) 1 = 7 / 2
   \<and> files (snd (main (demo_world [row_example] [refused, garbage, error_object]))) summary_path
       = Some (Summary 0 0 0 (21 / 5))"
  by (simp add: demo_w1_def demo_w2_def demo_w3_def main_eval)

lemma list_all2_replicate_same:
  "P x y \<Longrightarrow> list_all2 P (replicate n x) (replicate n y)"
  by (induction n) auto

lemma returned_results_eval:
  "returned_results refused = Inr (JArr [])"
  "returned_results garbage = Inr (JArr [])"
  "returned_results error_object = Inr (JArr [])"
  by (rule caught_failure_returned,
      simp add: caught_failure_def refused_def garbage_def error_object_def py_in_def)+

lemma returned_results_two_rows:
  "returned_results two_rows
     = Inr (JArr [JObj [(''company'', JStr ''Example''), (''score'', JNum 7)],
                  JObj [(''company'', JStr ''Acme'')]])"
  by (simp add: returned_results_def blank_world_def run_single_pipeline_def time_time_def
      subprocess_run_curl_def write_file_def Let_def two_rows_def json_eval)

text \<open>
  C2 (as amended). For every run in which the loader returns, the files of the script can
  be written and no batch raises: all three batches are submitted, \<^verbatim>\<open>summary.json\<close> is
  written at the end, and every batch that fails in a way the script handles (transport
  failure, unparseable body, a response without \<^verbatim>\<open>results\<close>) yields the empty sequence
  and is recorded with 0 results.
\<close>

theorem caught_failures_do_not_stop_the_run:
  assumes "load_companies input_path None w = Inr all" and "all_writable w"
    and "\<not> isl (returned_results (transport w !! 0))"
    and "\<not> isl (returned_results (transport w !! 1))"
    and "\<not> isl (returned_results (transport w !! 2))"
  shows "\<exists>w' n1 n2 n3 t.
           main w = (Inr (), w') \<and>
           requests w' = requests w @
             [(API_URL, Some (Payload ''core'' all)),
              (API_URL, Some (Payload ''advanced'' (take 100 all))),
              (API_URL, Some (Payload ''powerhouse'' (take 10 all)))] \<and>
           files w' summary_path = Some (Summary n1 n2 n3 t) \<and>
           (caught_failure (transport w !! 0) \<longrightarrow>
              returned_results (transport w !! 0) = Inr (JArr []) \<and> n1 = 0) \<and>
           (caught_failure (transport w !! 1) \<longrightarrow>
              returned_results (transport w !! 1) = Inr (JArr []) \<and> n2 = 0) \<and>
           (caught_failure (transport w !! 2) \<longrightarrow>
              returned_results (transport w !! 2) = Inr (JArr []) \<and> n3 = 0)"
proof -
  from assms(3-5) obtain x1 x2 x3 where
    x: "returned_results (transport w !! 0) = Inr x1"
       "returned_results (transport w !! 1) = Inr x2"
       "returned_results (transport w !! 2) = Inr x3"
    by (metis sum.collapse(2))
  note r = main_run [OF assms(1,2)]
  from r(3) [OF x] obtain n1 n2 n3 where
    n: "py_len x1 = Inr n1" "py_len x2 = Inr n2" "py_len x3 = Inr n3"
    and s: "files (snd (main w)) summary_path =
             Some (Summary n1 n2 n3
               (py_round (float_div (float_sub (clock w !! 7) (clock w !! 0)) 60) 1))"
    by blast
  have f: "fst (main w) = Inr ()" using r(1) x by simp
  then have m: "main w = (Inr (), snd (main w))" by (simp add: prod_eq_iff)
  have q: "requests (snd (main w)) = requests w @
             [(API_URL, Some (Payload ''core'' all)),
              (API_URL, Some (Payload ''advanced'' (take 100 all))),
              (API_URL, Some (Payload ''powerhouse'' (take 10 all)))]"
    using r(2) x by simp
  have z1: "returned_results (transport w !! 0) = Inr (JArr []) \<and> n1 = 0"
    if "caught_failure (transport w !! 0)"
  proof -
    from caught_failure_returned [OF that] x(1) have "x1 = JArr []" by simp
    with n(1) have "n1 = 0" by (simp add: py_len_def)
    with caught_failure_returned [OF that] show ?thesis by simp
  qed
  have z2: "returned_results (transport w !! 1) = Inr (JArr []) \<and> n2 = 0"
    if "caught_failure (transport w !! 1)"
  proof -
    from caught_failure_returned [OF that] x(2) have "x2 = JArr []" by simp
    with n(2) have "n2 = 0" by (simp add: py_len_def)
    with caught_failure_returned [OF that] show ?thesis by simp
  qed
  have z3: "returned_results (transport w !! 2) = Inr (JArr []) \<and> n3 = 0"
    if "caught_failure (transport w !! 2)"
  proof -
    from caught_failure_returned [OF that] x(3) have "x3 = JArr []" by simp
    with n(3) have "n3 = 0" by (simp add: py_len_def)
    with caught_failure_returned [OF that] show ?thesis by simp
  qed
  from m q s z1 z2 z3 show ?thesis by blast
qed

text \<open>Two failed batches and one that returns two rows.\<close>

theorem caught_failures_do_not_stop_the_run_witness:
  "load_companies input_path None (demo_world [row_example, row_acme] [refused, garbage, two_rows])
     = Inr [company_example, company_acme]
   \<and> all_writable (demo_world [row_example, row_acme] [refused, garbage, two_rows])
   \<and> caught_failure refused \<and> caught_failure garbage
   \<and> fst (main (demo_world [row_example, row_acme] [refused, garbage, two_rows])) = Inr ()
   \<and> files (snd (main (demo_world [row_example, row_acme] [refused, garbage, two_rows])))
        summary_path = Some (Summary 0 0 2 (21 / 5))"
proof -
  let ?w = "demo_world [row_example, row_acme] [refused, garbage, two_rows]"
  have h1: "load_companies input_path None ?w = Inr [company_example, company_acme]"
    by (simp add: load_companies_def demo_world_def limit_reached_def
        row_example_def row_acme_def company_example_def company_acme_def row_eval)
  have h2: "all_writable ?w" by (simp add: all_writable_def demo_world_def)
  have t: "transport ?w !! 0 = refused" "transport ?w !! 1 = garbage"
    "transport ?w !! 2 = two_rows"
    by (simp_all add: demo_world_def snth_2)
  have h3: "\<not> isl (returned_results (transport ?w !! 0))"
    "\<not> isl (returned_results (transport ?w !! 1))"
    "\<not> isl (returned_results (transport ?w !! 2))"
    unfolding t by (simp_all add: returned_results_eval returned_results_two_rows)
  have c: "caught_failure refused" "caught_failure garbage"
    by (simp_all add: caught_failure_def refused_def garbage_def)
  have s: "files (snd (main ?w)) summary_path = Some (Summary 0 0 2 (21 / 5))"
    by (simp add: main_eval)
  from caught_failures_do_not_stop_the_run [OF h1 h2 h3]
  have "fst (main ?w) = Inr ()" by auto
  with h1 h2 c s show ?thesis by simp
qed

text \<open>
  C2 as stated fails for a malformed \<^verbatim>\<open>results\<close> payload: on the answer
  \<^verbatim>\<open>{results: 5}\<close> to the \<^verbatim>\<open>advanced\<close> batch, \<^verbatim>\<open>len(results)\<close> raises \<^verbatim>\<open>TypeError\<close>, the
  \<^verbatim>\<open>powerhouse\<close> batch is not submitted and \<^verbatim>\<open>summary.json\<close> is not written.
\<close>

theorem caught_failures_do_not_stop_the_run_counterexample:
  "stdout_json bad_results = Some (JObj [(''results'', JNum 5)])
   \<and> fst (main (demo_world [row_example] [refused, bad_results, two_rows])) = Inl TypeError
   \<and> requests (snd (main (demo_world [row_example] [refused, bad_results, two_rows])))
       = [(API_URL, Some (Payload ''core'' [company_example])),
          (API_URL, Some (Payload ''advanced'' [company_example]))]
   \<and> files (snd (main (demo_world [row_example] [refused, bad_results, two_rows]))) summary_path
       = None"
  by (simp add: main_eval)

text \<open>
  C6 (as amended). For every run over an input file with \<open>N\<close> data rows in which the
  loader returns and the files of the script can be written: the loaded records are those
  of the rows, in row order; the batches are submitted in the order \<^verbatim>\<open>core\<close> with all
  \<open>N\<close> records, \<^verbatim>\<open>advanced\<close> with the first \<open>min N 100\<close>, \<^verbatim>\<open>powerhouse\<close> with the first
  \<open>min N 10\<close>; all three are submitted when no batch raises, and a batch that raises is
  the last one submitted.
\<close>

theorem batches_submitted:
  assumes "inputs w input_path = Some rows"
    and "load_companies input_path None w = Inr all" and "all_writable w"
  shows "list_all2 (\<lambda>row c. loop_body row = Inr c) rows all
   \<and> requests (snd (main w)) =
       requests w @
       take (if isl (returned_results (transport w !! 0)) then 1
             else if isl (returned_results (transport w !! 1)) then 2 else 3)
         [(API_URL, Some (Payload ''core'' all)),
          (API_URL, Some (Payload ''advanced'' (take (min (length rows) 100) all))),
          (API_URL, Some (Payload ''powerhouse'' (take (min (length rows) 10) all)))]
   \<and> (\<not> isl (returned_results (transport w !! 0)) \<and>
       \<not> isl (returned_results (transport w !! 1)) \<and>
       \<not> isl (returned_results (transport w !! 2)) \<longrightarrow>
        fst (main w) = Inr () \<and>
        requests (snd (main w)) =
          requests w @
          [(API_URL, Some (Payload ''core'' all)),
           (API_URL, Some (Payload ''advanced'' (take (min (length rows) 100) all))),
           (API_URL, Some (Payload ''powerhouse'' (take (min (length rows) 10) all)))])"
proof -
  from assms(1,2) have l: "list_all2 (\<lambda>row c. loop_body row = Inr c) rows all"
    by (simp add: load_companies_def load_loop_take)
  then have len: "length rows = length all" by (rule list_all2_lengthD)
  have t: "take (min (length rows) 100) all = take 100 all"
    "take (min (length rows) 10) all = take 10 all"
    unfolding len by (simp_all add: min_def)
  note r = main_run [OF assms(2,3)]
  have f: "fst (main w) = Inr ()"
    if "\<not> isl (returned_results (transport w !! 0))"
       "\<not> isl (returned_results (transport w !! 1))"
       "\<not> isl (returned_results (transport w !! 2))"
    using that unfolding r(1) by (auto simp: isl_def split: sum.splits)
  from l r(2) f show ?thesis unfolding t by simp
qed

text \<open>Twelve rows: the third batch is cut to ten records.\<close>

theorem batches_submitted_witness:
  "inputs (demo_world (replicate 12 row_example) [garbage, refused, error_object]) input_path
     = Some (replicate 12 row_example)
   \<and> load_companies input_path None
        (demo_world (replicate 12 row_example) [garbage, refused, error_object])
       = Inr (replicate 12 company_example)
   \<and> all_writable (demo_world (replicate 12 row_example) [garbage, refused, error_object])
   \<and> requests (snd (main (demo_world (replicate 12 row_example) [garbage, refused, error_object])))
       = [(API_URL, Some (Payload ''core'' (replicate 12 company_example))),
          (API_URL, Some (Payload ''advanced'' (replicate 12 company_example))),
          (API_URL, Some (Payload ''powerhouse'' (replicate 10 company_example)))]"
proof -
  let ?w = "demo_world (replicate 12 row_example) [garbage, refused, error_object]"
  have h1: "inputs ?w input_path = Some (replicate 12 row_example)"
    by (simp add: demo_world_def)
  have b: "loop_body row_example = Inr company_example"
    by (simp add: row_example_def company_example_def row_eval)
  have h2: "load_companies input_path None ?w = Inr (replicate 12 company_example)"
    using list_all2_replicate_same [of "\<lambda>row c. loop_body row = Inr c", OF b, of 12]
    by (simp add: load_companies_def h1 load_loop_take)
  have h3: "all_writable ?w" by (simp add: all_writable_def demo_world_def)
  have t: "transport ?w !! 0 = garbage" "transport ?w !! 1 = refused"
    "transport ?w !! 2 = error_object"
    by (simp_all add: demo_world_def snth_2)
  have q: "requests ?w = []" by (simp add: demo_world_def)
  from batches_submitted [OF h1 h2 h3]
  have "requests (snd (main ?w))
       = [(API_URL, Some (Payload ''core'' (replicate 12 company_example))),
          (API_URL, Some (Payload ''advanced'' (replicate 12 company_example))),
          (API_URL, Some (Payload ''powerhouse'' (replicate 10 company_example)))]"
    unfolding t by (simp add: returned_results_eval q)
  with h1 h2 h3 show ?thesis by simp
qed

text \<open>
  C6 as stated fails: when the \<^verbatim>\<open>core\<close> batch raises on its answer, it is the only batch
  submitted.
\<close>

theorem batches_submitted_counterexample:
  "load_companies input_path None (demo_world [row_example, row_acme] [bad_results, two_rows])
     = Inr [company_example, company_acme]
   \<and> fst (main (demo_world [row_example, row_acme] [bad_results, two_rows])) = Inl TypeError
   \<and> requests (snd (main (demo_world [row_example, row_acme] [bad_results, two_rows])))
       = [(API_URL, Some (Payload ''core'' [company_example, company_acme]))]"
  by (simp add: main_eval)

end
